theory Spec2Isabelle
  imports Main "HOL-Library.Sublist"
begin

section \<open>Go string functions used by git-regex-search\<close>

text \<open>
  A Go string is a sequence of bytes; \<open>string\<close> (a list of 8-bit characters) models it.
  The program uses \<open>strings.TrimSpace\<close>, \<open>strings.TrimPrefix\<close>, \<open>strings.Contains\<close>,
  \<open>strings.Split\<close> and \<open>strings.SplitN\<close>; the separators it passes to the two split
  functions are single ASCII characters.
\<close>

text \<open>
  \<open>strings.TrimSpace\<close> removes leading and trailing white space as Unicode defines it
  (\<open>unicode.IsSpace\<close>). On the bytes of the string that is: the six ASCII characters
  tab, line feed, vertical tab, form feed, carriage return and space, and the UTF-8
  encodings of U+0085, U+00A0, U+1680, U+2000 to U+200A, U+2028, U+2029, U+202F, U+205F
  and U+3000. A byte sequence that is not valid UTF-8 decodes to U+FFFD, which is not a
  space, so trimming stops there.
\<close>

definition unicodeSpaces :: "string list" where
  "unicodeSpaces =
     [[CHR 0x09], [CHR 0x0A], [CHR 0x0B], [CHR 0x0C], [CHR 0x0D], [CHR 0x20],
      [CHR 0xC2, CHR 0x85], [CHR 0xC2, CHR 0xA0],
      [CHR 0xE1, CHR 0x9A, CHR 0x80],
      [CHR 0xE2, CHR 0x80, CHR 0x80], [CHR 0xE2, CHR 0x80, CHR 0x81],
      [CHR 0xE2, CHR 0x80, CHR 0x82], [CHR 0xE2, CHR 0x80, CHR 0x83],
      [CHR 0xE2, CHR 0x80, CHR 0x84], [CHR 0xE2, CHR 0x80, CHR 0x85],
      [CHR 0xE2, CHR 0x80, CHR 0x86], [CHR 0xE2, CHR 0x80, CHR 0x87],
      [CHR 0xE2, CHR 0x80, CHR 0x88], [CHR 0xE2, CHR 0x80, CHR 0x89],
      [CHR 0xE2, CHR 0x80, CHR 0x8A],
      [CHR 0xE2, CHR 0x80, CHR 0xA8], [CHR 0xE2, CHR 0x80, CHR 0xA9],
      [CHR 0xE2, CHR 0x80, CHR 0xAF],
      [CHR 0xE2, CHR 0x81, CHR 0x9F],
      [CHR 0xE3, CHR 0x80, CHR 0x80]]"

text \<open>The white-space rune a string starts with, and the one it ends with, if any.\<close>

definition leadingSpace :: "string \<Rightarrow> string option" where
  "leadingSpace s = find (\<lambda>q. prefix q s) unicodeSpaces"

definition trailingSpace :: "string \<Rightarrow> string option" where
  "trailingSpace s = find (\<lambda>q. suffix q s) unicodeSpaces"

lemma unicodeSpaces_nonempty: "q \<in> set unicodeSpaces \<Longrightarrow> q \<noteq> []"
  by (auto simp: unicodeSpaces_def)

lemma find_SomeD: "find P xs = Some x \<Longrightarrow> x \<in> set xs \<and> P x"
  by (induction xs) (auto split: if_splits)

lemma leadingSpace_Some:
  "leadingSpace s = Some q \<Longrightarrow> q \<noteq> [] \<and> prefix q s"
  unfolding leadingSpace_def
  using find_SomeD [of "\<lambda>q. prefix q s" unicodeSpaces q] unicodeSpaces_nonempty [of q]
  by simp

lemma trailingSpace_Some:
  "trailingSpace s = Some q \<Longrightarrow> q \<noteq> [] \<and> suffix q s"
  unfolding trailingSpace_def
  using find_SomeD [of "\<lambda>q. suffix q s" unicodeSpaces q] unicodeSpaces_nonempty [of q]
  by simp

function TrimLeftSpace :: "string \<Rightarrow> string" where
  "TrimLeftSpace s =
     (case leadingSpace s of
        None \<Rightarrow> s
      | Some q \<Rightarrow> TrimLeftSpace (drop (length q) s))"
  by pat_completeness auto
termination
proof (relation "measure length")
  show "wf (measure length)" by simp
next
  fix s q
  assume "leadingSpace s = Some q"
  then have "q \<noteq> []" "prefix q s"
    using leadingSpace_Some by blast+
  then have "0 < length q" "length q \<le> length s"
    by (simp_all add: prefix_length_le)
  then have "length s - length q < length s"
    by arith
  then show "(drop (length q) s, s) \<in> measure length"
    by simp
qed

function TrimRightSpace :: "string \<Rightarrow> string" where
  "TrimRightSpace s =
     (case trailingSpace s of
        None \<Rightarrow> s
      | Some q \<Rightarrow> TrimRightSpace (take (length s - length q) s))"
  by pat_completeness auto
termination
proof (relation "measure length")
  show "wf (measure length)" by simp
next
  fix s q
  assume "trailingSpace s = Some q"
  then have "q \<noteq> []" "suffix q s"
    using trailingSpace_Some by blast+
  then have "0 < length q" "length q \<le> length s"
    by (simp_all add: suffix_length_le)
  then have "length s - length q < length s"
    by arith
  then show "(take (length s - length q) s, s) \<in> measure length"
    by simp
qed

declare TrimLeftSpace.simps [simp del]
declare TrimRightSpace.simps [simp del]

definition TrimSpace :: "string \<Rightarrow> string" where
  "TrimSpace s = TrimRightSpace (TrimLeftSpace s)"

text \<open>\<open>strings.TrimPrefix(s, p)\<close>: \<open>s\<close> without the leading \<open>p\<close>, or \<open>s\<close> itself.\<close>

definition TrimPrefix :: "string \<Rightarrow> string \<Rightarrow> string" where
  "TrimPrefix s p = (if prefix p s then drop (length p) s else s)"

text \<open>\<open>strings.Contains(s, sub)\<close>: \<open>sub\<close> occurs in \<open>s\<close> as a contiguous run.\<close>

fun Contains :: "string \<Rightarrow> string \<Rightarrow> bool" where
  "Contains [] sub = (sub = [])"
| "Contains (c # cs) sub = (prefix sub (c # cs) \<or> Contains cs sub)"

text \<open>
  \<open>strings.Split(s, sep)\<close> for a one-character separator: all the pieces between the
  separators, so one piece more than there are separators; the empty string gives one
  empty piece.
\<close>

fun Split :: "string \<Rightarrow> char \<Rightarrow> string list" where
  "Split [] sep = [[]]"
| "Split (c # cs) sep =
     (if c = sep then [] # Split cs sep
      else (case Split cs sep of
              [] \<Rightarrow> [[c]]
            | p # ps \<Rightarrow> (c # p) # ps))"

text \<open>
  \<open>strings.SplitN(s, sep, n)\<close> for a one-character separator and \<open>n \<ge> 0\<close>: at most
  \<open>n\<close> pieces, the last one being the unsplit rest; \<open>n = 0\<close> gives no piece at all.
\<close>

fun SplitN :: "string \<Rightarrow> char \<Rightarrow> nat \<Rightarrow> string list" where
  "SplitN s sep 0 = []"
| "SplitN s sep (Suc 0) = [s]"
| "SplitN s sep (Suc (Suc n)) =
     (if sep \<in> set s
      then takeWhile (\<lambda>c. c \<noteq> sep) s # SplitN (tl (dropWhile (\<lambda>c. c \<noteq> sep) s)) sep (Suc n)
      else [s])"

section \<open>The outside world\<close>

text \<open>
  The program works through the operating system: it resolves a path, looks for the
  \<open>.git\<close> entry, looks programs up in \<open>PATH\<close>, runs \<open>git\<close>, \<open>rg\<close> and \<open>grep\<close> as
  subprocesses and compiles the pattern with Go's \<open>regexp\<close> package. None of that is code
  of the repository, so the model takes it as a parameter: a world of any type \<open>'w\<close> and
  one function per library call. Running a subprocess may change the world; the other
  calls only read it.
\<close>

record command =
  cmd_name :: string
  cmd_args :: "string list"
  cmd_dir :: string

datatype stat_error = NotExist | OtherStatError

record 'w system =
  filepath_Abs :: "'w \<Rightarrow> string \<Rightarrow> string + string"
  filepath_Join :: "string \<Rightarrow> string \<Rightarrow> string"
  os_Stat :: "'w \<Rightarrow> string \<Rightarrow> stat_error option"
  exec_LookPath :: "'w \<Rightarrow> string \<Rightarrow> string option"
  cmd_Run :: "'w \<Rightarrow> command \<Rightarrow> (string \<times> string option) \<times> 'w"
  regexp_Compile :: "string \<Rightarrow> string option"

text \<open>
  \<open>filepath_Abs\<close> gives \<open>Inl\<close> the error or \<open>Inr\<close> the absolute path; \<open>os_Stat\<close>,
  \<open>exec_LookPath\<close> and \<open>regexp_Compile\<close> give the error, if any; \<open>cmd_Run\<close> gives what the
  process wrote to standard output and standard error (the program sends both to one
  buffer), the error of \<open>cmd.Run()\<close>, if any, and the world afterwards.
\<close>

section \<open>What a run does: errors, messages, events\<close>

text \<open>The fatal errors of the action, one constructor per \<open>fmt.Errorf\<close>.\<close>

datatype error =
    InvalidPath string
  | NotAGitRepo string
  | GitCommandFailed string
  | BranchListFailed string
  | InvalidRegex string
  | SearchFailed string string

text \<open>
  What the program prints on standard output, one constructor per \<open>Printf\<close> or
  \<open>Println\<close> of the source with its arguments. Colours and emoji are decoration and
  left out.
\<close>

datatype msg =
    MsgRepository string
  | MsgSearchPattern string
  | MsgCurrentBranch string
  | MsgBlank
  | MsgGlobWarning
  | MsgStashing
  | MsgFetching
  | MsgSearchingAcross nat
  | MsgSearchingBranch string
  | MsgPulling string
  | MsgFound nat string
  | MsgNoMatches string
  | MsgMatch string string string string
  | MsgRestoring string
  | MsgRestoringStash
  | MsgCompleted

text \<open>
  The events of a run, in order: a subprocess started, a message on standard output,
  the line \<open>Error: ...\<close> on standard error.
\<close>

datatype event = Exec command | Stdout msg | Stderr error

record 'w state =
  world :: 'w
  trace :: "event list"

definition print :: "msg \<Rightarrow> 'w state \<Rightarrow> 'w state" where
  "print m s = s\<lparr>trace := trace s @ [Stdout m]\<rparr>"

record flags =
  flag_repo :: string
  flag_regex :: string
  flag_branches :: string
  flag_include_glob :: "string list"
  flag_exclude_glob :: "string list"

section \<open>The program\<close>

text \<open>The command \<open>exec.Command("git", args...)\<close> with \<open>cmd.Dir = repoPath\<close>.\<close>

definition gitCmd :: "string \<Rightarrow> string list \<Rightarrow> command" where
  "gitCmd repoPath args = \<lparr>cmd_name = ''git'', cmd_args = args, cmd_dir = repoPath\<rparr>"

definition runGitCmd ::
  "'w system \<Rightarrow> string \<Rightarrow> string list \<Rightarrow> 'w state \<Rightarrow> (string \<times> string option) \<times> 'w state" where
  "runGitCmd sys repoPath args s =
     (let cmd = gitCmd repoPath args;
          ((out, err), w) = cmd_Run sys (world s) cmd
      in ((TrimSpace out, err), \<lparr>world = w, trace = trace s @ [Exec cmd]\<rparr>))"

definition commandExists :: "'w system \<Rightarrow> 'w \<Rightarrow> string \<Rightarrow> bool" where
  "commandExists sys w cmd = (exec_LookPath sys w cmd = None)"

text \<open>
  \<open>grepRepo\<close> returns the lines and an error. The error it returns is \<open>nil\<close> on both of
  its paths; the sum type keeps the shape of the Go signature, \<open>Inl\<close> being a non-nil
  error. A \<open>nil\<close> slice is the empty list.
\<close>

text \<open>
  The command \<open>grepRepo\<close> builds: \<open>rg\<close> with the globs that are not blank when \<open>rg\<close> is
  in \<open>PATH\<close>, \<open>grep\<close> without them otherwise.
\<close>

definition searchCmd ::
  "'w system \<Rightarrow> 'w \<Rightarrow> string \<Rightarrow> string \<Rightarrow> string list \<Rightarrow> string list \<Rightarrow> command" where
  "searchCmd sys w repoPath pattern includeGlobs excludeGlobs =
     (if commandExists sys w ''rg''
      then \<lparr>cmd_name = ''rg'',
            cmd_args = [''-n'', ''-uu'', ''--pcre2'']
              @ concat (map (\<lambda>g. [''--glob'', g])
                  (filter (\<lambda>g. TrimSpace g \<noteq> []) includeGlobs))
              @ concat (map (\<lambda>g. [''--glob'', ''!'' @ g])
                  (filter (\<lambda>g. TrimSpace g \<noteq> []) excludeGlobs))
              @ [pattern],
            cmd_dir = repoPath\<rparr>
      else \<lparr>cmd_name = ''grep'', cmd_args = [''-rnE'', pattern, ''.''],
            cmd_dir = repoPath\<rparr>)"

definition grepRepo ::
  "'w system \<Rightarrow> string \<Rightarrow> string \<Rightarrow> string list \<Rightarrow> string list \<Rightarrow> 'w state
     \<Rightarrow> (string + string list) \<times> 'w state" where
  "grepRepo sys repoPath pattern includeGlobs excludeGlobs s =
     (let cmd = searchCmd sys (world s) repoPath pattern includeGlobs excludeGlobs;
          ((out, err), w) = cmd_Run sys (world s) cmd;
          s' = \<lparr>world = w, trace = trace s @ [Exec cmd]\<rparr>
      in if err \<noteq> None \<and> length out = 0
         then (Inr [], s')
         else (Inr (Split (TrimSpace out) (CHR 0x0A)), s'))"

text \<open>
  The loop over the lines of \<open>git branch -r\<close>: a line is trimmed, dropped when it is
  empty or a symbolic ref, and loses one leading \<open>origin/\<close>.
\<close>

fun remoteBranches :: "string list \<Rightarrow> string list" where
  "remoteBranches [] = []"
| "remoteBranches (l # ls) =
     (let b = TrimSpace l
      in if b \<noteq> [] \<and> \<not> Contains b ''->''
         then TrimPrefix b ''origin/'' # remoteBranches ls
         else remoteBranches ls)"

text \<open>The branches to search: the explicit list, or else the remote branches.\<close>

definition listBranches ::
  "'w system \<Rightarrow> string \<Rightarrow> string \<Rightarrow> 'w state \<Rightarrow> (error + string list) \<times> 'w state" where
  "listBranches sys repoPath branchesArg s =
     (if branchesArg \<noteq> []
      then (Inr (Split branchesArg (CHR '','')), s)
      else
        (let ((branchList, err), s1) = runGitCmd sys repoPath [''branch'', ''-r''] s
         in case err of
              Some e \<Rightarrow> (Inl (BranchListFailed e), s1)
            | None \<Rightarrow> (Inr (remoteBranches (Split branchList (CHR 0x0A))), s1)))"

text \<open>The loop over the lines of the search tool: a line prints when it has three parts.\<close>

fun printMatches :: "string \<Rightarrow> string list \<Rightarrow> msg list" where
  "printMatches branch [] = []"
| "printMatches branch (match # matches) =
     (let parts = SplitN match (CHR '':'') 3
      in if length parts < 3
         then printMatches branch matches
         else MsgMatch branch (parts ! 0) (parts ! 1) (parts ! 2)
                # printMatches branch matches)"

text \<open>The count line and the match lines of one branch.\<close>

definition report :: "string \<Rightarrow> string list \<Rightarrow> msg list" where
  "report branch matches =
     (if length matches > 0
      then MsgFound (length matches) branch
      else MsgNoMatches branch) # printMatches branch matches"

text \<open>One round of the loop over the branches, for a name that is not empty.\<close>

definition searchBranch ::
  "'w system \<Rightarrow> string \<Rightarrow> string \<Rightarrow> string list \<Rightarrow> string list \<Rightarrow> string \<Rightarrow> 'w state
     \<Rightarrow> (error + unit) \<times> 'w state" where
  "searchBranch sys repoPath regex includeGlobs excludeGlobs branch s =
     (let s1 = print (MsgSearchingBranch branch) s;
          (_, s2) = runGitCmd sys repoPath [''checkout'', branch] s1;
          s3 = print (MsgPulling branch) s2;
          (_, s4) = runGitCmd sys repoPath [''pull'', ''origin'', branch] s3;
          (res, s5) = grepRepo sys repoPath regex includeGlobs excludeGlobs s4
      in case res of
           Inl err \<Rightarrow> (Inl (SearchFailed branch err), s5)
         | Inr matches \<Rightarrow>
             (Inr (), s5\<lparr>trace := trace s5 @ map Stdout (report branch matches)\<rparr>))"

fun searchBranches ::
  "'w system \<Rightarrow> string \<Rightarrow> string \<Rightarrow> string list \<Rightarrow> string list \<Rightarrow> string list \<Rightarrow> 'w state
     \<Rightarrow> (error + unit) \<times> 'w state" where
  "searchBranches sys repoPath regex includeGlobs excludeGlobs [] s = (Inr (), s)"
| "searchBranches sys repoPath regex includeGlobs excludeGlobs (b # bs) s =
     (let branch = TrimSpace b
      in if branch = []
         then searchBranches sys repoPath regex includeGlobs excludeGlobs bs s
         else
           (case searchBranch sys repoPath regex includeGlobs excludeGlobs branch s of
              (Inl e, s') \<Rightarrow> (Inl e, s')
            | (Inr _, s') \<Rightarrow>
                searchBranches sys repoPath regex includeGlobs excludeGlobs bs s'))"

text \<open>The action of the command-line application, from the parsed flags.\<close>

definition action :: "'w system \<Rightarrow> flags \<Rightarrow> 'w state \<Rightarrow> (error + unit) \<times> 'w state" where
  "action sys c s0 =
     (case filepath_Abs sys (world s0) (flag_repo c) of
        Inl err \<Rightarrow> (Inl (InvalidPath err), s0)
      | Inr repoPath \<Rightarrow>
          (let regex = flag_regex c;
               branchesArg = flag_branches c;
               includeGlobs = flag_include_glob c;
               excludeGlobs = flag_exclude_glob c
           in if os_Stat sys (world s0) (filepath_Join sys repoPath ''.git'') = Some NotExist
              then (Inl (NotAGitRepo repoPath), s0)
              else
                (let ((currentBranch, err), s1) =
                       runGitCmd sys repoPath [''rev-parse'', ''--abbrev-ref'', ''HEAD''] s0
                 in case err of
                      Some e \<Rightarrow> (Inl (GitCommandFailed e), s1)
                    | None \<Rightarrow>
                        (let s2 = print MsgBlank (print (MsgCurrentBranch currentBranch)
                                    (print (MsgSearchPattern regex)
                                      (print (MsgRepository repoPath) s1)));
                             s3 = (if (length includeGlobs > 0 \<or> length excludeGlobs > 0)
                                      \<and> \<not> commandExists sys (world s2) ''rg''
                                   then print MsgGlobWarning s2 else s2);
                             s4 = print MsgStashing s3;
                             (_, s5) = runGitCmd sys repoPath
                               [''stash'', ''push'', ''-u'', ''-m'', ''git-regex-search-temp-stash''] s4;
                             s6 = print MsgFetching s5;
                             (_, s7) = runGitCmd sys repoPath [''fetch'', ''--all'', ''--quiet''] s6;
                             (res, s8) = listBranches sys repoPath branchesArg s7
                         in case res of
                              Inl e \<Rightarrow> (Inl e, s8)
                            | Inr branches \<Rightarrow>
                                (case regexp_Compile sys regex of
                                   Some e \<Rightarrow> (Inl (InvalidRegex e), s8)
                                 | None \<Rightarrow>
                                     (let s9 = print (MsgSearchingAcross (length branches)) s8
                                      in case searchBranches sys repoPath regex includeGlobs
                                                excludeGlobs branches s9 of
                                           (Inl e, s10) \<Rightarrow> (Inl e, s10)
                                         | (Inr _, s10) \<Rightarrow>
                                             (let s11 = print (MsgRestoring currentBranch)
                                                          (print MsgBlank s10);
                                                  (_, s12) = runGitCmd sys repoPath
                                                    [''checkout'', currentBranch] s11;
                                                  s13 = print MsgRestoringStash s12;
                                                  (_, s14) = runGitCmd sys repoPath
                                                    [''stash'', ''pop''] s13
                                              in (Inr (), print MsgCompleted s14))))))))"

text \<open>
  \<open>main\<close>: run the action from an empty transcript; on an error print it on standard
  error and exit with status 1, otherwise exit with status 0.
\<close>

definition main :: "'w system \<Rightarrow> flags \<Rightarrow> 'w \<Rightarrow> nat \<times> 'w state" where
  "main sys c w =
     (case action sys c \<lparr>world = w, trace = []\<rparr> of
        (Inl err, s) \<Rightarrow> (1, s\<lparr>trace := trace s @ [Stderr err]\<rparr>)
      | (Inr _, s) \<Rightarrow> (0, s))"

section \<open>Reading a transcript\<close>

text \<open>The arguments of the \<open>git\<close> subprocesses of a transcript, in order.\<close>

fun gitCalls :: "event list \<Rightarrow> string list list" where
  "gitCalls [] = []"
| "gitCalls (Exec c # es) =
     (if cmd_name c = ''git'' then cmd_args c # gitCalls es else gitCalls es)"
| "gitCalls (Stdout m # es) = gitCalls es"
| "gitCalls (Stderr e # es) = gitCalls es"

text \<open>The error lines and the messages of a transcript, in order.\<close>

fun stderrLines :: "event list \<Rightarrow> error list" where
  "stderrLines [] = []"
| "stderrLines (Stderr e # es) = e # stderrLines es"
| "stderrLines (Exec c # es) = stderrLines es"
| "stderrLines (Stdout m # es) = stderrLines es"

fun stdoutLines :: "event list \<Rightarrow> msg list" where
  "stdoutLines [] = []"
| "stdoutLines (Stdout m # es) = m # stdoutLines es"
| "stdoutLines (Exec c # es) = stdoutLines es"
| "stdoutLines (Stderr e # es) = stdoutLines es"

text \<open>
  The three \<open>git\<close> calls every run starts with once the repository is found, the
  world after a list of subprocesses, and the events before and after the loop over
  the branches.
\<close>

definition revParse :: "string list" where
  "revParse = [''rev-parse'', ''--abbrev-ref'', ''HEAD'']"

definition stashPush :: "string list" where
  "stashPush = [''stash'', ''push'', ''-u'', ''-m'', ''git-regex-search-temp-stash'']"

definition fetchAll :: "string list" where
  "fetchAll = [''fetch'', ''--all'', ''--quiet'']"

definition worldAfter :: "'w system \<Rightarrow> 'w \<Rightarrow> command list \<Rightarrow> 'w" where
  "worldAfter sys w cs = foldl (\<lambda>w c. snd (cmd_Run sys w c)) w cs"

definition preamble :: "string \<Rightarrow> string \<Rightarrow> string \<Rightarrow> bool \<Rightarrow> event list" where
  "preamble p regex cur warn =
     [Exec (gitCmd p revParse), Stdout (MsgRepository p), Stdout (MsgSearchPattern regex),
      Stdout (MsgCurrentBranch cur), Stdout MsgBlank]
     @ (if warn then [Stdout MsgGlobWarning] else [])
     @ [Stdout MsgStashing, Exec (gitCmd p stashPush),
        Stdout MsgFetching, Exec (gitCmd p fetchAll)]"

definition epilogue :: "string \<Rightarrow> string \<Rightarrow> event list" where
  "epilogue p cur =
     [Stdout MsgBlank, Stdout (MsgRestoring cur), Exec (gitCmd p [''checkout'', cur]),
      Stdout MsgRestoringStash, Exec (gitCmd p [''stash'', ''pop'']), Stdout MsgCompleted]"

text \<open>The two \<open>git\<close> calls of one round of the loop over the branches.\<close>

definition visit :: "string \<Rightarrow> string list list" where
  "visit b = [[''checkout'', b], [''pull'', ''origin'', b]]"

text \<open>
  The normalization of a branch name in the words of the specification: trim the white
  space, then strip the prefix \<open>origin/\<close>.
\<close>

definition normalizeBranch :: "string \<Rightarrow> string" where
  "normalizeBranch b = TrimPrefix (TrimSpace b) ''origin/''"

text \<open>
  The names the loop over the branches works on: from the value of \<open>--branches\<close>,
  and from the trimmed output of \<open>git branch -r\<close>.
\<close>

definition explicitNames :: "string \<Rightarrow> string list" where
  "explicitNames arg = filter (\<lambda>b. b \<noteq> []) (map TrimSpace (Split arg (CHR '','')))"

definition remoteNames :: "string \<Rightarrow> string list" where
  "remoteNames listing =
     filter (\<lambda>b. b \<noteq> [])
       (map (\<lambda>l. TrimSpace (normalizeBranch l))
          (filter (\<lambda>l. TrimSpace l \<noteq> [] \<and> \<not> Contains (TrimSpace l) ''->'')
             (Split listing (CHR 0x0A))))"

text \<open>
  A line of the search tool that has two separators, in the words of the specification:
  \<open>file:line:text\<close>, and the match line it prints.
\<close>

definition validLine :: "string \<Rightarrow> bool" where
  "validLine l = (2 \<le> count_list l (CHR '':''))"

definition matchLine :: "string \<Rightarrow> string \<Rightarrow> msg" where
  "matchLine branch l =
     (let file = takeWhile (\<lambda>c. c \<noteq> CHR '':'') l;
          rest = tl (dropWhile (\<lambda>c. c \<noteq> CHR '':'') l);
          lineNum = takeWhile (\<lambda>c. c \<noteq> CHR '':'') rest;
          lineText = tl (dropWhile (\<lambda>c. c \<noteq> CHR '':'') rest)
      in MsgMatch branch file lineNum lineText)"

section \<open>A small world to run the program in\<close>

text \<open>
  A repository at \<open>/repo\<close> with the remote branches \<open>main\<close> and \<open>feature-x\<close>. The world
  is the name of the branch that is checked out. \<open>rg\<close> is installed; what the search
  tool answers on each branch is the parameter \<open>tool\<close>. The only pattern that does not
  compile is \<open>(\<close>.
\<close>

definition demoRun ::
  "(string \<Rightarrow> string \<times> string option) \<Rightarrow> string \<Rightarrow> command
     \<Rightarrow> (string \<times> string option) \<times> string" where
  "demoRun tool w c =
     (if cmd_name c = ''git''
      then (case cmd_args c of
              [a, b, x] \<Rightarrow>
                (if a = ''rev-parse'' then ((w @ [CHR 0x0A], None), w)
                 else (([], None), w))
            | [a, b] \<Rightarrow>
                (if a = ''checkout'' then (([], None), b)
                 else if a = ''branch''
                 then ((''  origin/HEAD -> origin/main'' @ [CHR 0x0A]
                         @ ''  origin/main'' @ [CHR 0x0A]
                         @ ''  origin/feature-x'' @ [CHR 0x0A], None), w)
                 else (([], None), w))
            | _ \<Rightarrow> (([], None), w))
      else (tool w, w))"

definition demo :: "(string \<Rightarrow> string \<times> string option) \<Rightarrow> string system" where
  "demo tool =
     \<lparr>filepath_Abs = (\<lambda>w p. Inr p),
      filepath_Join = (\<lambda>a b. a @ ''/'' @ b),
      os_Stat = (\<lambda>w p. if p = ''/repo/.git'' then None else Some NotExist),
      exec_LookPath = (\<lambda>w c. if c = ''rg'' then None else Some ''not found''),
      cmd_Run = demoRun tool,
      regexp_Compile = (\<lambda>r. if r = ''('' then Some ''missing closing )'' else None)\<rparr>"

text \<open>The pattern \<open>TODO\<close> matches one line on \<open>main\<close> and nothing elsewhere.\<close>

definition todoTool :: "string \<Rightarrow> string \<times> string option" where
  "todoTool w =
     (if w = ''main'' then (''foo.go:10:// TODO fix'' @ [CHR 0x0A], None)
      else ([], Some ''exit status 1''))"

text \<open>A search tool that stops with a complaint and exit status 2.\<close>

definition brokenTool :: "string \<Rightarrow> string \<times> string option" where
  "brokenTool w = (''rg: error'' @ [CHR 0x0A], Some ''exit status 2'')"

text \<open>A search tool that succeeds and prints nothing.\<close>

definition silentTool :: "string \<Rightarrow> string \<times> string option" where
  "silentTool w = ([], None)"

definition demoFlags :: "string \<Rightarrow> string \<Rightarrow> string \<Rightarrow> flags" where
  "demoFlags path pattern names =
     \<lparr>flag_repo = path, flag_regex = pattern, flag_branches = names,
      flag_include_glob = [], flag_exclude_glob = []\<rparr>"

section \<open>Transcripts of the building blocks\<close>

lemma gitCalls_append [simp]: "gitCalls (xs @ ys) = gitCalls xs @ gitCalls ys"
  by (induction xs rule: gitCalls.induct) auto

lemma gitCalls_Stdout [simp]: "gitCalls (map Stdout ms) = []"
  by (induction ms) auto

lemma gitCalls_gitCmd [simp]: "gitCalls [Exec (gitCmd p args)] = [args]"
  by (simp add: gitCmd_def)

lemma runGitCmd_trace:
  "trace (snd (runGitCmd sys p args s)) = trace s @ [Exec (gitCmd p args)]"
  by (simp add: runGitCmd_def Let_def split: prod.splits)

lemma runGitCmd_world:
  "world (snd (runGitCmd sys p args s)) = snd (cmd_Run sys (world s) (gitCmd p args))"
  by (simp add: runGitCmd_def Let_def split: prod.splits)

lemma runGitCmd_result:
  "fst (runGitCmd sys p args s) =
     (TrimSpace (fst (fst (cmd_Run sys (world s) (gitCmd p args)))),
      snd (fst (cmd_Run sys (world s) (gitCmd p args))))"
  by (simp add: runGitCmd_def Let_def split: prod.splits)

lemma stderrLines_append [simp]: "stderrLines (xs @ ys) = stderrLines xs @ stderrLines ys"
  by (induction xs rule: stderrLines.induct) auto

lemma stdoutLines_append [simp]: "stdoutLines (xs @ ys) = stdoutLines xs @ stdoutLines ys"
  by (induction xs rule: stdoutLines.induct) auto

lemma stderrLines_Stdout [simp]: "stderrLines (map Stdout ms) = []"
  by (induction ms) auto

lemma stdoutLines_Stdout [simp]: "stdoutLines (map Stdout ms) = ms"
  by (induction ms) auto

lemma print_trace [simp]: "trace (print m s) = trace s @ [Stdout m]"
  by (simp add: print_def)

lemma print_world [simp]: "world (print m s) = world s"
  by (simp add: print_def)

lemma gitCmd_sel [simp]:
  "cmd_name (gitCmd p args) = ''git''" "cmd_args (gitCmd p args) = args"
  by (simp_all add: gitCmd_def)

lemma searchCmd_not_git [simp]: "cmd_name (searchCmd sys w p r i e) \<noteq> ''git''"
  by (simp add: searchCmd_def)

lemma grepRepo_no_error: "fst (grepRepo sys p r i e s) \<noteq> Inl err"
  by (simp add: grepRepo_def Let_def split_beta)

lemma grepRepo_trace:
  "trace (snd (grepRepo sys p r i e s)) = trace s @ [Exec (searchCmd sys (world s) p r i e)]"
  by (simp add: grepRepo_def Let_def split_beta)

lemma printMatches_not_completed: "MsgCompleted \<notin> set (printMatches b ms)"
  by (induction ms) (auto simp: Let_def)

lemma report_not_completed: "MsgCompleted \<notin> set (report b ms)"
  by (simp add: report_def printMatches_not_completed)

lemma searchBranch_ok: "fst (searchBranch sys p r i e b s) = Inr ()"
  using grepRepo_no_error [of sys p r i e]
  by (auto simp add: searchBranch_def Let_def split_beta split: sum.splits)

lemma searchBranch_trace:
  "\<exists>c ms. cmd_name c \<noteq> ''git'' \<and>
     trace (snd (searchBranch sys p r i e b s))
       = trace s @ [Stdout (MsgSearchingBranch b), Exec (gitCmd p [''checkout'', b]),
                    Stdout (MsgPulling b), Exec (gitCmd p [''pull'', ''origin'', b]), Exec c]
           @ map Stdout (report b ms)"
proof -
  let ?s4 = "snd (runGitCmd sys p [''pull'', ''origin'', b]
               (print (MsgPulling b)
                 (snd (runGitCmd sys p [''checkout'', b] (print (MsgSearchingBranch b) s)))))"
  obtain ms where ms: "fst (grepRepo sys p r i e ?s4) = Inr ms"
    using grepRepo_no_error [of sys p r i e ?s4] by (cases "fst (grepRepo sys p r i e ?s4)") auto
  have tr: "trace (snd (searchBranch sys p r i e b s))
       = trace s @ [Stdout (MsgSearchingBranch b), Exec (gitCmd p [''checkout'', b]),
                    Stdout (MsgPulling b), Exec (gitCmd p [''pull'', ''origin'', b]),
                    Exec (searchCmd sys (world ?s4) p r i e)]
           @ map Stdout (report b ms)"
    using ms by (simp add: searchBranch_def Let_def split_beta runGitCmd_trace grepRepo_trace)
  show ?thesis
    by (rule exI [of _ "searchCmd sys (world ?s4) p r i e"], rule exI [of _ ms])
      (simp only: tr searchCmd_not_git not_False_eq_True simp_thms)
qed

lemma searchBranch_gitCalls:
  "gitCalls (trace (snd (searchBranch sys p r i e b s))) = gitCalls (trace s) @ visit b"
  using searchBranch_trace [of sys p r i e b s] by (auto simp: visit_def)

lemma searchBranch_stderr:
  "stderrLines (trace (snd (searchBranch sys p r i e b s))) = stderrLines (trace s)"
  using searchBranch_trace [of sys p r i e b s] by auto

lemma searchBranch_completed:
  "MsgCompleted \<in> set (stdoutLines (trace (snd (searchBranch sys p r i e b s))))
     \<longleftrightarrow> MsgCompleted \<in> set (stdoutLines (trace s))"
  using searchBranch_trace [of sys p r i e b s] report_not_completed by auto

lemma searchBranches_Cons:
  "searchBranches sys p r i e (b # bs) s =
     (if TrimSpace b = [] then searchBranches sys p r i e bs s
      else searchBranches sys p r i e bs (snd (searchBranch sys p r i e (TrimSpace b) s)))"
  using searchBranch_ok [of sys p r i e "TrimSpace b" s]
  by (cases "searchBranch sys p r i e (TrimSpace b) s") (simp add: Let_def)

lemma searchBranches_ok: "fst (searchBranches sys p r i e bs s) = Inr ()"
  by (induction bs arbitrary: s) (simp_all add: searchBranches_Cons del: searchBranches.simps(2))

lemma searchBranches_gitCalls:
  "gitCalls (trace (snd (searchBranches sys p r i e bs s)))
     = gitCalls (trace s) @ concat (map visit (filter (\<lambda>b. b \<noteq> []) (map TrimSpace bs)))"
  by (induction bs arbitrary: s)
    (simp_all add: searchBranches_Cons searchBranch_gitCalls del: searchBranches.simps(2))

lemma searchBranches_stderr:
  "stderrLines (trace (snd (searchBranches sys p r i e bs s))) = stderrLines (trace s)"
  by (induction bs arbitrary: s)
    (simp_all add: searchBranches_Cons searchBranch_stderr del: searchBranches.simps(2))

lemma searchBranches_completed:
  "MsgCompleted \<in> set (stdoutLines (trace (snd (searchBranches sys p r i e bs s))))
     \<longleftrightarrow> MsgCompleted \<in> set (stdoutLines (trace s))"
  by (induction bs arbitrary: s)
    (simp_all add: searchBranches_Cons searchBranch_completed del: searchBranches.simps(2))


lemma listBranches_trace:
  "trace (snd (listBranches sys p arg s))
     = trace s @ (if arg = [] then [Exec (gitCmd p [''branch'', ''-r''])] else [])"
  by (simp add: listBranches_def Let_def split_beta runGitCmd_trace split: option.splits)

lemma listBranches_world:
  "world (snd (listBranches sys p arg s))
     = (if arg = [] then snd (cmd_Run sys (world s) (gitCmd p [''branch'', ''-r''])) else world s)"
  by (simp add: listBranches_def Let_def split_beta runGitCmd_world split: option.splits)


lemma listBranches_Inl:
  assumes "fst (listBranches sys p arg s) = Inl e"
  shows "arg = [] \<and> (\<exists>m. e = BranchListFailed m
           \<and> snd (fst (cmd_Run sys (world s) (gitCmd p [''branch'', ''-r'']))) = Some m)"
  using assms
  by (auto simp: listBranches_def Let_def split_beta runGitCmd_result
      split: if_splits option.splits)

lemma listBranches_Inr:
  assumes "fst (listBranches sys p arg s) = Inr bs"
  shows "(arg \<noteq> [] \<longrightarrow> bs = Split arg (CHR '','')) \<and>
         (arg = [] \<longrightarrow> bs = remoteBranches (Split (TrimSpace (fst (fst
             (cmd_Run sys (world s) (gitCmd p [''branch'', ''-r'']))))) (CHR 0x0A)))"
  using assms
  by (auto simp: listBranches_def Let_def split_beta runGitCmd_result
      split: if_splits option.splits)

lemma if_print:
  "(if b then print m s else s) = s\<lparr>trace := trace s @ (if b then [Stdout m] else [])\<rparr>"
  by (simp add: print_def)

lemma action_cases [consumes 1, case_names BadPath NoRepo NoHead NoList BadRegex Done]:
  assumes run: "action sys c s0 = (r, s)"
  obtains
    e where "filepath_Abs sys (world s0) (flag_repo c) = Inl e"
      "r = Inl (InvalidPath e)" "s = s0"
  | p where "filepath_Abs sys (world s0) (flag_repo c) = Inr p"
      "os_Stat sys (world s0) (filepath_Join sys p ''.git'') = Some NotExist"
      "r = Inl (NotAGitRepo p)" "s = s0"
  | p e where "filepath_Abs sys (world s0) (flag_repo c) = Inr p"
      "os_Stat sys (world s0) (filepath_Join sys p ''.git'') \<noteq> Some NotExist"
      "snd (fst (cmd_Run sys (world s0) (gitCmd p revParse))) = Some e"
      "r = Inl (GitCommandFailed e)" "trace s = trace s0 @ [Exec (gitCmd p revParse)]"
  | p e cur warn where "filepath_Abs sys (world s0) (flag_repo c) = Inr p"
      "os_Stat sys (world s0) (filepath_Join sys p ''.git'') \<noteq> Some NotExist"
      "fst (cmd_Run sys (world s0) (gitCmd p revParse)) = (cur, None)"
      "flag_branches c = []"
      "snd (fst (cmd_Run sys (worldAfter sys (world s0)
          [gitCmd p revParse, gitCmd p stashPush, gitCmd p fetchAll])
          (gitCmd p [''branch'', ''-r'']))) = Some e"
      "r = Inl (BranchListFailed e)"
      "trace s = trace s0 @ preamble p (flag_regex c) (TrimSpace cur) warn
                   @ [Exec (gitCmd p [''branch'', ''-r''])]"
  | p e cur warn where "filepath_Abs sys (world s0) (flag_repo c) = Inr p"
      "os_Stat sys (world s0) (filepath_Join sys p ''.git'') \<noteq> Some NotExist"
      "fst (cmd_Run sys (world s0) (gitCmd p revParse)) = (cur, None)"
      "regexp_Compile sys (flag_regex c) = Some e"
      "r = Inl (InvalidRegex e)"
      "trace s = trace s0 @ preamble p (flag_regex c) (TrimSpace cur) warn
                   @ (if flag_branches c = [] then [Exec (gitCmd p [''branch'', ''-r''])] else [])"
  | p cur warn bs s9 where "filepath_Abs sys (world s0) (flag_repo c) = Inr p"
      "os_Stat sys (world s0) (filepath_Join sys p ''.git'') \<noteq> Some NotExist"
      "fst (cmd_Run sys (world s0) (gitCmd p revParse)) = (cur, None)"
      "regexp_Compile sys (flag_regex c) = None"
      "flag_branches c \<noteq> [] \<Longrightarrow> bs = Split (flag_branches c) (CHR '','')"
      "flag_branches c = [] \<Longrightarrow>
         bs = remoteBranches (Split (TrimSpace (fst (fst (cmd_Run sys (worldAfter sys (world s0)
                [gitCmd p revParse, gitCmd p stashPush, gitCmd p fetchAll])
                (gitCmd p [''branch'', ''-r'']))))) (CHR 0x0A))"
      "trace s9 = trace s0 @ preamble p (flag_regex c) (TrimSpace cur) warn
                   @ (if flag_branches c = [] then [Exec (gitCmd p [''branch'', ''-r''])] else [])
                   @ [Stdout (MsgSearchingAcross (length bs))]"
      "r = Inr ()"
      "trace s = trace (snd (searchBranches sys p (flag_regex c) (flag_include_glob c)
                   (flag_exclude_glob c) bs s9)) @ epilogue p (TrimSpace cur)"
proof (cases "filepath_Abs sys (world s0) (flag_repo c)")
  case (Inl e)
  with run have "r = Inl (InvalidPath e)" "s = s0"
    by (simp_all add: action_def)
  with Inl that(1) show ?thesis by blast
next
  case (Inr p)
  show ?thesis
  proof (cases "os_Stat sys (world s0) (filepath_Join sys p ''.git'') = Some NotExist")
    case True
    with run Inr have "r = Inl (NotAGitRepo p)" "s = s0"
      by (simp_all add: action_def)
    with Inr True that(2) show ?thesis by blast
  next
    case False
    define s1 where "s1 = snd (runGitCmd sys p revParse s0)"
    obtain out err where o: "fst (cmd_Run sys (world s0) (gitCmd p revParse)) = (out, err)"
      by (cases "fst (cmd_Run sys (world s0) (gitCmd p revParse))") auto
    have g1: "fst (runGitCmd sys p [''rev-parse'', ''--abbrev-ref'', ''HEAD''] s0)
                = (TrimSpace out, err)"
      using o runGitCmd_result [of sys p revParse s0]
      by (simp add: revParse_def)
    have t1: "trace s1 = trace s0 @ [Exec (gitCmd p revParse)]"
      by (simp add: s1_def runGitCmd_trace)
    have w1: "world s1 = worldAfter sys (world s0) [gitCmd p revParse]"
      by (simp add: s1_def runGitCmd_world worldAfter_def)
    show ?thesis
    proof (cases err)
      case (Some e)
      with run Inr False g1 have "r = Inl (GitCommandFailed e)" "s = s1"
        by (simp_all add: action_def split_beta s1_def revParse_def)
      with Inr False o Some t1 that(3) show ?thesis by simp
    next
      case None
      define warn where "warn \<longleftrightarrow> (length (flag_include_glob c) > 0
          \<or> length (flag_exclude_glob c) > 0) \<and> \<not> commandExists sys (world s1) ''rg''"
      define s2 where "s2 = print MsgBlank (print (MsgCurrentBranch (TrimSpace out))
                                    (print (MsgSearchPattern (flag_regex c))
                                      (print (MsgRepository p) s1)))"
      define s4 where "s4 = print MsgStashing (if warn then print MsgGlobWarning s2 else s2)"
      define s5 where "s5 = snd (runGitCmd sys p stashPush s4)"
      define s7 where "s7 = snd (runGitCmd sys p fetchAll (print MsgFetching s5))"
      define lb where "lb = listBranches sys p (flag_branches c) s7"
      have t7: "trace s7 = trace s0 @ preamble p (flag_regex c) (TrimSpace out) warn"
        by (simp add: s7_def s5_def s4_def s2_def t1 runGitCmd_trace preamble_def)
      have w7: "world s7 = worldAfter sys (world s0)
                  [gitCmd p revParse, gitCmd p stashPush, gitCmd p fetchAll]"
        by (simp add: s7_def s5_def s4_def s2_def w1 runGitCmd_world worldAfter_def)
      have t8: "trace (snd lb) = trace s7
          @ (if flag_branches c = [] then [Exec (gitCmd p [''branch'', ''-r''])] else [])"
        by (simp add: lb_def listBranches_trace)
      note defs = lb_def s7_def s5_def s4_def s2_def warn_def s1_def stashPush_def
        fetchAll_def revParse_def
      have cur: "fst (cmd_Run sys (world s0) (gitCmd p revParse)) = (out, None)"
        using o None by simp
      show ?thesis
      proof (cases "fst lb")
        case (Inl e)
        have a: "action sys c s0 = (Inl e, snd lb)"
          using Inr False g1 None Inl
          by (simp add: action_def Let_def split_beta defs if_print)
        from listBranches_Inl [OF Inl [unfolded lb_def]] obtain m
          where m: "flag_branches c = []" "e = BranchListFailed m"
            "snd (fst (cmd_Run sys (world s7) (gitCmd p [''branch'', ''-r'']))) = Some m"
          by blast
        have "trace s = trace s0 @ preamble p (flag_regex c) (TrimSpace out) warn
                   @ [Exec (gitCmd p [''branch'', ''-r''])]"
          using run a t8 t7 m(1) by simp
        then show ?thesis
          using that(4) [OF Inr False cur m(1)] m(2,3) w7 run a by simp
      next
        case bs: (Inr bs)
        show ?thesis
        proof (cases "regexp_Compile sys (flag_regex c)")
          case (Some e)
          have a: "action sys c s0 = (Inl (InvalidRegex e), snd lb)"
            using Inr False g1 None bs Some
            by (simp add: action_def Let_def split_beta defs if_print)
          have "trace s = trace s0 @ preamble p (flag_regex c) (TrimSpace out) warn
              @ (if flag_branches c = [] then [Exec (gitCmd p [''branch'', ''-r''])] else [])"
            using run a t8 t7 by simp
          then show ?thesis
            using that(5) [OF Inr False cur Some] run a by simp
        next
          case ok: None
          define s9 where "s9 = print (MsgSearchingAcross (length bs)) (snd lb)"
          define s10 where "s10 = snd (searchBranches sys p (flag_regex c) (flag_include_glob c)
                         (flag_exclude_glob c) bs s9)"
          have a: "action sys c s0 = (Inr (), print MsgCompleted
                           (snd (runGitCmd sys p [''stash'', ''pop'']
                              (print MsgRestoringStash
                                (snd (runGitCmd sys p [''checkout'', TrimSpace out]
                                 (print (MsgRestoring (TrimSpace out)) (print MsgBlank s10))))))))"
            using Inr False g1 None bs ok
            by (simp add: action_def Let_def split_beta defs s9_def s10_def searchBranches_ok if_print)
          have t9: "trace s9 = trace s0 @ preamble p (flag_regex c) (TrimSpace out) warn
              @ (if flag_branches c = [] then [Exec (gitCmd p [''branch'', ''-r''])] else [])
              @ [Stdout (MsgSearchingAcross (length bs))]"
            using t8 t7 by (simp add: s9_def)
          have ts: "trace s = trace s10 @ epilogue p (TrimSpace out)"
            using run a by (auto simp add: epilogue_def runGitCmd_trace)
          note lb = listBranches_Inr [OF bs [unfolded lb_def], unfolded w7]
          show ?thesis
          proof (rule that(6) [OF Inr False cur ok _ _ t9 _ ts [unfolded s10_def]])
            show "r = Inr ()" using run a by simp
          qed (use lb in simp_all)
        qed
      qed
    qed
  qed
qed

lemma stderrLines_preamble [simp]: "stderrLines (preamble p r cur warn) = []"
  by (simp add: preamble_def)

lemma stderrLines_epilogue [simp]: "stderrLines (epilogue p cur) = []"
  by (simp add: epilogue_def)

lemma stdoutLines_preamble:
  "stdoutLines (preamble p r cur warn) =
     [MsgRepository p, MsgSearchPattern r, MsgCurrentBranch cur, MsgBlank]
     @ (if warn then [MsgGlobWarning] else []) @ [MsgStashing, MsgFetching]"
  by (simp add: preamble_def)

lemma gitCalls_preamble [simp]:
  "gitCalls (preamble p r cur warn) = [revParse, stashPush, fetchAll]"
  by (simp add: preamble_def)

lemma gitCalls_epilogue [simp]:
  "gitCalls (epilogue p cur) = [[''checkout'', cur], [''stash'', ''pop'']]"
  by (simp add: epilogue_def)

lemma last_epilogue [simp]: "last (xs @ epilogue p cur) = Stdout MsgCompleted"
  by (simp add: epilogue_def)

lemma remoteBranches_map:
  "remoteBranches ls =
     map normalizeBranch (filter (\<lambda>l. TrimSpace l \<noteq> [] \<and> \<not> Contains (TrimSpace l) ''->'') ls)"
  by (induction ls) (simp_all add: Let_def normalizeBranch_def)

lemma branch_r_not_visit [simp]: "[''branch'', ''-r''] \<notin> set (visit b)"
  by (simp add: visit_def)

section \<open>A path that is not a repository\<close>

text \<open>
  C6. When the directory of the resolved repository path has no \<open>.git\<close> entry, the run
  fails with the not-a-repository error and starts no subprocess at all: its whole
  transcript is the error line, the exit status is 1 and the world is untouched.
\<close>

theorem no_git_dir:
  assumes "filepath_Abs sys w (flag_repo c) = Inr p"
    and "os_Stat sys w (filepath_Join sys p ''.git'') = Some NotExist"
  shows "main sys c w = (1, \<lparr>world = w, trace = [Stderr (NotAGitRepo p)]\<rparr>)"
  using assms by (simp add: main_def action_def)

theorem no_git_dir_witness:
  "filepath_Abs (demo silentTool) ''main'' (flag_repo (demoFlags ''/tmp'' ''TODO'' [])) = Inr ''/tmp''
   \<and> os_Stat (demo silentTool) ''main'' (filepath_Join (demo silentTool) ''/tmp'' ''.git'')
       = Some NotExist
   \<and> main (demo silentTool) (demoFlags ''/tmp'' ''TODO'' []) ''main''
       = (1, \<lparr>world = ''main'', trace = [Stderr (NotAGitRepo ''/tmp'')]\<rparr>)"
proof -
  have a: "filepath_Abs (demo silentTool) ''main'' (flag_repo (demoFlags ''/tmp'' ''TODO'' []))
             = Inr ''/tmp''"
    by (simp add: demo_def demoFlags_def)
  have b: "os_Stat (demo silentTool) ''main'' (filepath_Join (demo silentTool) ''/tmp'' ''.git'')
             = Some NotExist"
    by (simp add: demo_def)
  from a b no_git_dir [OF a b] show ?thesis by simp
qed

section \<open>How a run ends\<close>

text \<open>
  C7. Every run ends in exactly one of two ways. Either the exit status is 0, nothing was
  written to standard error and the last thing printed is the closing line
  \<open>Search completed!\<close>; or the exit status is 1, standard error holds exactly one
  \<open>Error:\<close> line, written last, and the closing line was never printed.
\<close>

theorem exit_exclusive:
  assumes "main sys c w = (code, s)"
  shows "(code = 0 \<and> stderrLines (trace s) = [] \<and> last (trace s) = Stdout MsgCompleted)
       \<or> (code = 1 \<and> (\<exists>e. stderrLines (trace s) = [e] \<and> last (trace s) = Stderr e)
            \<and> MsgCompleted \<notin> set (stdoutLines (trace s)))"
proof -
  obtain r s' where a: "action sys c \<lparr>world = w, trace = []\<rparr> = (r, s')"
    by (cases "action sys c \<lparr>world = w, trace = []\<rparr>") auto
  from a show ?thesis
  proof (cases rule: action_cases)
    case (BadPath e)
    with a assms show ?thesis by (auto simp: main_def)
  next
    case (NoRepo p)
    with a assms show ?thesis by (auto simp: main_def)
  next
    case (NoHead p e)
    with a assms show ?thesis by (auto simp: main_def)
  next
    case (NoList p e cur warn)
    with a assms show ?thesis by (auto simp: main_def stdoutLines_preamble)
  next
    case (BadRegex p e cur warn)
    with a assms show ?thesis by (auto simp: main_def stdoutLines_preamble split: if_splits)
  next
    case (Done p cur warn bs s9)
    with a assms show ?thesis by (auto simp: main_def searchBranches_stderr split: if_splits)
  qed
qed


theorem exit_exclusive_witness:
  "fst (main (demo todoTool) (demoFlags ''/repo'' ''TODO'' []) ''main'') = 0
   \<and> stderrLines (trace (snd (main (demo todoTool) (demoFlags ''/repo'' ''TODO'' []) ''main''))) = []
   \<and> last (trace (snd (main (demo todoTool) (demoFlags ''/repo'' ''TODO'' []) ''main'')))
       = Stdout MsgCompleted"
proof -
  have z: "fst (main (demo todoTool) (demoFlags ''/repo'' ''TODO'' []) ''main'') = 0"
    by code_simp
  show ?thesis
    using z exit_exclusive [OF surjective_pairing,
        of "demo todoTool" "demoFlags ''/repo'' ''TODO'' []" "''main''"]
    by simp
qed

text \<open>
  C10. The checkout of the original branch and \<open>git stash pop\<close> happen only when the run
  succeeds, where they are the last two \<open>git\<close> calls. A run that fails never pops the
  stash and never checks anything out, although it has pushed the stash whenever the
  failure is the branch listing or the pattern.
\<close>

theorem restore_only_on_success:
  assumes "main sys c w = (code, s)"
  shows "(code = 0 \<longrightarrow>
            (\<exists>p out calls. filepath_Abs sys w (flag_repo c) = Inr p
               \<and> fst (cmd_Run sys w (gitCmd p revParse)) = (out, None)
               \<and> gitCalls (trace s)
                   = calls @ [[''checkout'', TrimSpace out], [''stash'', ''pop'']]))
       \<and> (code \<noteq> 0 \<longrightarrow>
            [''stash'', ''pop''] \<notin> set (gitCalls (trace s))
            \<and> (\<forall>b. [''checkout'', b] \<notin> set (gitCalls (trace s)))
            \<and> (stashPush \<in> set (gitCalls (trace s)) \<longleftrightarrow>
                 (\<exists>m. stderrLines (trace s) = [BranchListFailed m]
                    \<or> stderrLines (trace s) = [InvalidRegex m])))"
proof -
  obtain r s' where a: "action sys c \<lparr>world = w, trace = []\<rparr> = (r, s')"
    by (cases "action sys c \<lparr>world = w, trace = []\<rparr>") auto
  from a show ?thesis
  proof (cases rule: action_cases)
    case (BadPath e)
    with a assms show ?thesis by (auto simp: main_def)
  next
    case (NoRepo p)
    with a assms show ?thesis by (auto simp: main_def)
  next
    case (NoHead p e)
    with a assms show ?thesis
      by (auto simp: main_def revParse_def stashPush_def)
  next
    case (NoList p e cur warn)
    with a assms show ?thesis
      by (auto simp: main_def revParse_def stashPush_def fetchAll_def)
  next
    case (BadRegex p e cur warn)
    with a assms show ?thesis
      by (auto simp: main_def revParse_def stashPush_def fetchAll_def split: if_splits)
  next
    case (Done p cur warn bs s9)
    with a assms show ?thesis
      by (auto simp: main_def searchBranches_gitCalls split: if_splits)
  qed
qed

theorem restore_only_on_success_witness:
  "fst (main (demo todoTool) (demoFlags ''/repo'' ''('' []) ''main'') \<noteq> 0
   \<and> stashPush \<in> set (gitCalls (trace (snd (main (demo todoTool)
         (demoFlags ''/repo'' ''('' []) ''main''))))
   \<and> [''stash'', ''pop''] \<notin> set (gitCalls (trace (snd (main (demo todoTool)
         (demoFlags ''/repo'' ''('' []) ''main''))))
   \<and> (\<forall>b. [''checkout'', b] \<notin> set (gitCalls (trace (snd (main (demo todoTool)
         (demoFlags ''/repo'' ''('' []) ''main'')))))"
proof -
  have z: "fst (main (demo todoTool) (demoFlags ''/repo'' ''('' []) ''main'') \<noteq> 0"
    by code_simp
  have p: "stashPush \<in> set (gitCalls (trace (snd (main (demo todoTool)
         (demoFlags ''/repo'' ''('' []) ''main''))))"
    by code_simp
  show ?thesis
    using z p restore_only_on_success [OF surjective_pairing,
        of "demo todoTool" "demoFlags ''/repo'' ''('' []" "''main''"]
    by blast
qed


section \<open>Which branches are searched\<close>

text \<open>
  C8. With a value for \<open>--branches\<close>, \<open>git branch -r\<close> is never run, and a run that
  succeeds makes exactly these \<open>git\<close> calls: the three opening ones, then checkout and
  pull for each listed name in the listed order (each name trimmed, empty ones left
  out), then the checkout of the original branch and the stash pop. What the remote
  has plays no part.
\<close>

theorem explicit_branches:
  assumes "flag_branches c \<noteq> []" and "main sys c w = (code, s)"
  shows "[''branch'', ''-r''] \<notin> set (gitCalls (trace s))
       \<and> (code = 0 \<longrightarrow>
            (\<exists>p out. filepath_Abs sys w (flag_repo c) = Inr p
               \<and> fst (cmd_Run sys w (gitCmd p revParse)) = (out, None)
               \<and> gitCalls (trace s)
                   = [revParse, stashPush, fetchAll]
                     @ concat (map visit (explicitNames (flag_branches c)))
                     @ [[''checkout'', TrimSpace out], [''stash'', ''pop'']]))"
proof -
  obtain r s' where a: "action sys c \<lparr>world = w, trace = []\<rparr> = (r, s')"
    by (cases "action sys c \<lparr>world = w, trace = []\<rparr>") auto
  from a show ?thesis
  proof (cases rule: action_cases)
    case (BadPath e)
    with a assms show ?thesis by (auto simp: main_def)
  next
    case (NoRepo p)
    with a assms show ?thesis by (auto simp: main_def)
  next
    case (NoHead p e)
    with a assms show ?thesis by (auto simp: main_def revParse_def)
  next
    case (NoList p e cur warn)
    with a assms show ?thesis by (auto simp: main_def)
  next
    case (BadRegex p e cur warn)
    with a assms show ?thesis
      by (auto simp: main_def revParse_def stashPush_def fetchAll_def)
  next
    case (Done p cur warn bs s9)
    with a assms show ?thesis
      by (auto simp: main_def searchBranches_gitCalls explicitNames_def
          revParse_def stashPush_def fetchAll_def)
  qed
qed

theorem explicit_branches_witness:
  "flag_branches (demoFlags ''/repo'' ''TODO'' ''main,dev'') \<noteq> []
   \<and> fst (main (demo todoTool) (demoFlags ''/repo'' ''TODO'' ''main,dev'') ''feature-x'') = 0
   \<and> [''branch'', ''-r''] \<notin> set (gitCalls (trace (snd
         (main (demo todoTool) (demoFlags ''/repo'' ''TODO'' ''main,dev'') ''feature-x''))))
   \<and> explicitNames (flag_branches (demoFlags ''/repo'' ''TODO'' ''main,dev'')) = [''main'', ''dev'']"
proof -
  have n: "flag_branches (demoFlags ''/repo'' ''TODO'' ''main,dev'') \<noteq> []"
    by (simp add: demoFlags_def)
  have z: "fst (main (demo todoTool) (demoFlags ''/repo'' ''TODO'' ''main,dev'') ''feature-x'') = 0"
    by code_simp
  have e: "explicitNames (flag_branches (demoFlags ''/repo'' ''TODO'' ''main,dev''))
             = [''main'', ''dev'']"
    by code_simp
  show ?thesis
    using n z e explicit_branches [OF n surjective_pairing, of "demo todoTool" "''feature-x''"]
    by blast
qed

text \<open>
  C3, as claimed, fails: a name from \<open>--branches\<close> keeps its \<open>origin/\<close>. With
  \<open>--branches origin/main\<close> the program checks out and pulls \<open>origin/main\<close>.
\<close>

theorem origin_prefix_kept_counterexample:
  "gitCalls (trace (snd (main (demo silentTool)
       (demoFlags ''/repo'' ''TODO'' ''origin/main'') ''main'')))
     = [[''rev-parse'', ''--abbrev-ref'', ''HEAD''],
        [''stash'', ''push'', ''-u'', ''-m'', ''git-regex-search-temp-stash''],
        [''fetch'', ''--all'', ''--quiet''],
        [''checkout'', ''origin/main''],
        [''pull'', ''origin'', ''origin/main''],
        [''checkout'', ''main''],
        [''stash'', ''pop'']]"
  by code_simp

text \<open>
  C3, amended. A name from \<open>--branches\<close> is trimmed of white space only; a line of
  \<open>git branch -r\<close> is trimmed, loses one leading \<open>origin/\<close> and is trimmed again; empty
  names are left out in both cases. These are the names a successful run checks out
  and pulls, in order.
\<close>

theorem names_used:
  assumes "main sys c w = (0, s)"
  shows "\<exists>p out. filepath_Abs sys w (flag_repo c) = Inr p
           \<and> fst (cmd_Run sys w (gitCmd p revParse)) = (out, None)
           \<and> gitCalls (trace s)
               = [revParse, stashPush, fetchAll]
                 @ (if flag_branches c \<noteq> []
                    then concat (map visit (explicitNames (flag_branches c)))
                    else [''branch'', ''-r'']
                      # concat (map visit (remoteNames (TrimSpace (fst (fst
                          (cmd_Run sys
                             (worldAfter sys w
                                [gitCmd p revParse, gitCmd p stashPush, gitCmd p fetchAll])
                             (gitCmd p [''branch'', ''-r''])))))))) 
                 @ [[''checkout'', TrimSpace out], [''stash'', ''pop'']]"
proof -
  obtain r s' where a: "action sys c \<lparr>world = w, trace = []\<rparr> = (r, s')"
    by (cases "action sys c \<lparr>world = w, trace = []\<rparr>") auto
  from a show ?thesis
  proof (cases rule: action_cases)
    case (Done p cur warn bs s9)
    have s: "s = s'"
      using a assms Done by (simp add: main_def)
    have "gitCalls (trace s)
               = [revParse, stashPush, fetchAll]
                 @ (if flag_branches c \<noteq> []
                    then concat (map visit (explicitNames (flag_branches c)))
                    else [''branch'', ''-r'']
                      # concat (map visit (remoteNames (TrimSpace (fst (fst
                          (cmd_Run sys
                             (worldAfter sys w
                                [gitCmd p revParse, gitCmd p stashPush, gitCmd p fetchAll])
                             (gitCmd p [''branch'', ''-r''])))))))) 
                 @ [[''checkout'', TrimSpace cur], [''stash'', ''pop'']]"
      using Done s
      by (simp add: searchBranches_gitCalls explicitNames_def remoteNames_def
          remoteBranches_map filter_map comp_def)
    with Done(1,3) show ?thesis by auto
  qed (use a assms in \<open>simp_all add: main_def\<close>)
qed

theorem names_used_witness:
  "main (demo todoTool) (demoFlags ''/repo'' ''TODO'' []) ''main''
     = (0, snd (main (demo todoTool) (demoFlags ''/repo'' ''TODO'' []) ''main''))
   \<and> gitCalls (trace (snd (main (demo todoTool) (demoFlags ''/repo'' ''TODO'' []) ''main'')))
       = [revParse, stashPush, fetchAll, [''branch'', ''-r'']]
         @ visit ''main'' @ visit ''feature-x''
         @ [[''checkout'', ''main''], [''stash'', ''pop'']]"
proof -
  have z: "fst (main (demo todoTool) (demoFlags ''/repo'' ''TODO'' []) ''main'') = 0"
    by code_simp
  have m: "main (demo todoTool) (demoFlags ''/repo'' ''TODO'' []) ''main''
     = (0, snd (main (demo todoTool) (demoFlags ''/repo'' ''TODO'' []) ''main''))"
    using z by (simp add: prod_eq_iff)
  have a: "filepath_Abs (demo todoTool) ''main'' (flag_repo (demoFlags ''/repo'' ''TODO'' []))
             = Inr p \<longleftrightarrow> p = ''/repo''" for p
    by (auto simp: demo_def demoFlags_def)
  have o: "fst (cmd_Run (demo todoTool) ''main'' (gitCmd ''/repo'' revParse))
             = (''main'' @ [CHR 0x0A], None)"
    by code_simp
  have t: "TrimSpace (''main'' @ [CHR 0x0A]) = ''main''"
    by code_simp
  have f: "flag_branches (demoFlags ''/repo'' ''TODO'' []) = []"
    by (simp add: demoFlags_def)
  have r: "remoteNames (TrimSpace (fst (fst (cmd_Run (demo todoTool)
             (worldAfter (demo todoTool) ''main''
                [gitCmd ''/repo'' revParse, gitCmd ''/repo'' stashPush, gitCmd ''/repo'' fetchAll])
             (gitCmd ''/repo'' [''branch'', ''-r'']))))) = [''main'', ''feature-x'']"
    by code_simp
  from names_used [OF m] show ?thesis
    using m a o t f r by auto
qed

section \<open>When the pattern is checked\<close>

text \<open>
  C1. With the pattern \<open>(\<close>, which does not compile, the run fails with the
  invalid-pattern error only after it has pushed the stash, fetched and listed the
  remote branches.
\<close>

theorem regex_checked_late:
  "fst (main (demo todoTool) (demoFlags ''/repo'' ''('' []) ''main'') = 1
   \<and> stderrLines (trace (snd (main (demo todoTool) (demoFlags ''/repo'' ''('' []) ''main'')))
       = [InvalidRegex ''missing closing )'']
   \<and> gitCalls (trace (snd (main (demo todoTool) (demoFlags ''/repo'' ''('' []) ''main'')))
       = [[''rev-parse'', ''--abbrev-ref'', ''HEAD''],
          [''stash'', ''push'', ''-u'', ''-m'', ''git-regex-search-temp-stash''],
          [''fetch'', ''--all'', ''--quiet''],
          [''branch'', ''-r'']]"
  by code_simp

section \<open>A search tool that fails\<close>

text \<open>
  C2. When the search tool stops with exit status 2 and a complaint on its output, the
  run does not fail: the complaint is counted as one match, nothing goes to standard
  error and the exit status is 0.
\<close>

theorem broken_search_not_reported:
  "fst (main (demo brokenTool) (demoFlags ''/repo'' ''TODO'' ''main'') ''main'') = 0
   \<and> stderrLines (trace (snd (main (demo brokenTool)
         (demoFlags ''/repo'' ''TODO'' ''main'') ''main''))) = []
   \<and> stdoutLines (trace (snd (main (demo brokenTool)
         (demoFlags ''/repo'' ''TODO'' ''main'') ''main'')))
       = [MsgRepository ''/repo'', MsgSearchPattern ''TODO'', MsgCurrentBranch ''main'',
          MsgBlank, MsgStashing, MsgFetching, MsgSearchingAcross 1,
          MsgSearchingBranch ''main'', MsgPulling ''main'', MsgFound 1 ''main'',
          MsgBlank, MsgRestoring ''main'', MsgRestoringStash, MsgCompleted]"
  by code_simp


section \<open>The lines of the search tool\<close>

lemma SplitN_3:
  "SplitN l (CHR '':'') 3 =
     (if CHR '':'' \<in> set l
      then (let rest = tl (dropWhile (\<lambda>c. c \<noteq> CHR '':'') l)
            in if CHR '':'' \<in> set rest
               then [takeWhile (\<lambda>c. c \<noteq> CHR '':'') l, takeWhile (\<lambda>c. c \<noteq> CHR '':'') rest,
                     tl (dropWhile (\<lambda>c. c \<noteq> CHR '':'') rest)]
               else [takeWhile (\<lambda>c. c \<noteq> CHR '':'') l, rest])
      else [l])"
  by (simp add: numeral_3_eq_3 Let_def)

lemma count_list_0_iff: "count_list xs x = 0 \<longleftrightarrow> x \<notin> set xs"
  by (induction xs) auto

lemma count_list_tl_dropWhile:
  "x \<in> set xs \<Longrightarrow> count_list xs x = Suc (count_list (tl (dropWhile (\<lambda>c. c \<noteq> x) xs)) x)"
  by (induction xs) auto

lemma validLine_iff:
  "validLine l \<longleftrightarrow> CHR '':'' \<in> set l \<and> CHR '':'' \<in> set (tl (dropWhile (\<lambda>c. c \<noteq> CHR '':'') l))"
proof (cases "CHR '':'' \<in> set l")
  case True
  show ?thesis
    using True count_list_tl_dropWhile [OF True]
      count_list_0_iff [of "tl (dropWhile (\<lambda>c. c \<noteq> CHR '':'') l)" "CHR '':''"]
    by (auto simp: validLine_def)
next
  case False
  then show ?thesis
    using count_list_0_iff [of l "CHR '':''"] by (simp add: validLine_def)
qed

lemma printMatches_filter:
  "printMatches branch matches = map (matchLine branch) (filter validLine matches)"
proof (induction matches)
  case Nil
  show ?case by simp
next
  case (Cons l ls)
  show ?case
  proof (cases "validLine l")
    case True
    then show ?thesis
      using Cons by (simp add: SplitN_3 validLine_iff matchLine_def Let_def)
  next
    case False
    then show ?thesis
      using Cons by (auto simp add: SplitN_3 validLine_iff Let_def)
  qed
qed

lemma matchLine_parts:
  assumes "CHR '':'' \<notin> set file" and "CHR '':'' \<notin> set lineNum"
  shows "validLine (file @ '':'' @ lineNum @ '':'' @ lineText)
       \<and> matchLine branch (file @ '':'' @ lineNum @ '':'' @ lineText)
           = MsgMatch branch file lineNum lineText"
  using assms
  by (simp add: validLine_iff matchLine_def takeWhile_tail dropWhile_append3 dropWhile_append)

text \<open>
  C4. For one branch the program prints the count line and then one match line for each
  raw line that has at least two \<open>:\<close>, in order, split as \<open>file:line:text\<close>; a raw
  line with fewer is dropped without a word. The count on the count line is the number
  of raw lines, taken before any line is dropped, so dropping changes nothing in it.
\<close>

theorem match_lines:
  "report branch matches =
     (if matches = [] then MsgNoMatches branch else MsgFound (length matches) branch)
       # map (matchLine branch) (filter validLine matches)"
  by (simp add: report_def printMatches_filter)

text \<open>
  C9. When the search tool succeeds and its output is empty or all white space,
  \<open>grepRepo\<close> returns one empty line; the program then reports one match for the branch
  and prints no match line.
\<close>

theorem empty_output_counts_one:
  assumes "cmd_Run sys (world s) (searchCmd sys (world s) p r i e) = ((out, None), w)"
    and "TrimSpace out = []"
  shows "grepRepo sys p r i e s
           = (Inr [[]], \<lparr>world = w, trace = trace s @ [Exec (searchCmd sys (world s) p r i e)]\<rparr>)
       \<and> report branch [[]] = [MsgFound 1 branch]"
  using assms by (simp add: grepRepo_def report_def SplitN_3)

theorem empty_output_counts_one_witness:
  "cmd_Run (demo silentTool) ''main''
       (searchCmd (demo silentTool) ''main'' ''/repo'' ''TODO'' [] []) = (([], None), ''main'')
   \<and> TrimSpace [] = []
   \<and> fst (grepRepo (demo silentTool) ''/repo'' ''TODO'' [] [] \<lparr>world = ''main'', trace = []\<rparr>)
       = Inr [[]]
   \<and> report ''main'' [[]] = [MsgFound 1 ''main'']"
proof -
  have a: "cmd_Run (demo silentTool) (world \<lparr>world = ''main'', trace = []\<rparr>)
       (searchCmd (demo silentTool) (world \<lparr>world = ''main'', trace = []\<rparr>) ''/repo'' ''TODO'' [] [])
       = (([], None), ''main'')"
    by code_simp
  have b: "TrimSpace [] = []"
    by code_simp
  from empty_output_counts_one [OF a b, of "''main''"] a b show ?thesis
    by simp
qed

section \<open>Normalizing a branch name twice\<close>

lemma find_None_D: "find P xs = None \<Longrightarrow> x \<in> set xs \<Longrightarrow> \<not> P x"
  by (induction xs) (auto split: if_splits)

lemma TrimLeftSpace_suffix: "suffix (TrimLeftSpace s) s"
proof (induction s rule: TrimLeftSpace.induct)
  case (1 s)
  show ?case
  proof (cases "leadingSpace s")
    case None
    then show ?thesis by (simp add: TrimLeftSpace.simps)
  next
    case (Some q)
    have "suffix (TrimLeftSpace (drop (length q) s)) (drop (length q) s)"
      using 1 Some by simp
    then have "suffix (TrimLeftSpace (drop (length q) s)) s"
      using suffix_drop suffix_order.trans by blast
    then show ?thesis
      using Some by (simp add: TrimLeftSpace.simps [of s])
  qed
qed

lemma TrimLeftSpace_fixed: "TrimLeftSpace s = s \<longleftrightarrow> leadingSpace s = None"
proof
  assume eq: "TrimLeftSpace s = s"
  show "leadingSpace s = None"
  proof (rule ccontr)
    assume "leadingSpace s \<noteq> None"
    then obtain q where q: "leadingSpace s = Some q" by auto
    then have "q \<noteq> []" "prefix q s"
      using leadingSpace_Some by blast+
    then have lt: "length (drop (length q) s) < length s"
      by (cases q; cases s) auto
    have "suffix (TrimLeftSpace s) (drop (length q) s)"
      using q TrimLeftSpace_suffix [of "drop (length q) s"]
      by (simp add: TrimLeftSpace.simps [of s])
    then have "length (TrimLeftSpace s) \<le> length (drop (length q) s)"
      by (rule suffix_length_le)
    with lt eq show False by simp
  qed
next
  assume "leadingSpace s = None"
  then show "TrimLeftSpace s = s"
    by (simp add: TrimLeftSpace.simps [of s])
qed

lemma TrimRightSpace_trailing: "trailingSpace (TrimRightSpace s) = None"
proof (induction s rule: TrimRightSpace.induct)
  case (1 s)
  show ?case
  proof (cases "trailingSpace s")
    case None
    then show ?thesis by (simp add: TrimRightSpace.simps [of s])
  next
    case (Some q)
    then show ?thesis
      using 1 by (simp add: TrimRightSpace.simps [of s])
  qed
qed

lemma trailingSpace_suffix:
  assumes "trailingSpace s = None" and "suffix t s"
  shows "trailingSpace t = None"
proof (rule ccontr)
  assume "trailingSpace t \<noteq> None"
  then obtain q where q: "trailingSpace t = Some q" by auto
  then have "q \<in> set unicodeSpaces" "suffix q t"
    using find_SomeD [of "\<lambda>q. suffix q t" unicodeSpaces q]
    by (simp_all add: trailingSpace_def)
  then have "q \<in> set unicodeSpaces" "suffix q s"
    using assms(2) suffix_order.trans by blast+
  then show False
    using find_None_D [of "\<lambda>q. suffix q s" unicodeSpaces q] assms(1)
    by (simp add: trailingSpace_def)
qed

lemma TrimRightSpace_fixed: "trailingSpace s = None \<Longrightarrow> TrimRightSpace s = s"
  by (simp add: TrimRightSpace.simps [of s])

lemma normalizeBranch_suffix: "suffix (normalizeBranch b) (TrimSpace b)"
  by (simp add: normalizeBranch_def TrimPrefix_def suffix_drop)

lemma normalizeBranch_trailing: "trailingSpace (normalizeBranch b) = None"
  using trailingSpace_suffix [OF _ normalizeBranch_suffix] TrimRightSpace_trailing
  by (simp add: TrimSpace_def)

lemma TrimSpace_normalized: "TrimSpace (normalizeBranch b) = TrimLeftSpace (normalizeBranch b)"
  unfolding TrimSpace_def
  by (rule TrimRightSpace_fixed)
    (rule trailingSpace_suffix [OF normalizeBranch_trailing TrimLeftSpace_suffix])

lemma TrimPrefix_fixed: "p \<noteq> [] \<Longrightarrow> TrimPrefix s p = s \<longleftrightarrow> \<not> prefix p s"
proof -
  assume p: "p \<noteq> []"
  have "drop (length p) s \<noteq> s" if "prefix p s"
  proof
    assume "drop (length p) s = s"
    then have "length (drop (length p) s) = length s"
      by simp
    then have "length s - length p = length s"
      by simp
    moreover have "0 < length p" "length p \<le> length s"
      using p that by (simp_all add: prefix_length_le)
    ultimately show False
      by arith
  qed
  then show ?thesis
    by (auto simp: TrimPrefix_def)
qed

text \<open>
  C5, as claimed, fails: the normalization strips one \<open>origin/\<close>, so a name that
  starts with two of them changes again the second time.
\<close>

theorem normalize_twice_counterexample:
  "remoteBranches [''origin/origin/x''] = [''origin/x'']
   \<and> remoteBranches [''origin/x''] = [''x'']
   \<and> normalizeBranch ''origin/origin/x'' = ''origin/x''
   \<and> normalizeBranch (normalizeBranch ''origin/origin/x'') = ''x''"
  by code_simp

text \<open>
  C5, amended. Normalizing a normalized name gives the same name exactly when that name
  does not start with \<open>origin/\<close> and does not start with white space.
\<close>

theorem normalize_again:
  "normalizeBranch (normalizeBranch b) = normalizeBranch b
     \<longleftrightarrow> \<not> prefix ''origin/'' (normalizeBranch b) \<and> leadingSpace (normalizeBranch b) = None"
proof -
  let ?n = "normalizeBranch b"
  have again: "normalizeBranch ?n = TrimPrefix (TrimLeftSpace ?n) ''origin/''"
    by (simp add: normalizeBranch_def [of ?n] TrimSpace_normalized)
  show ?thesis
  proof
    assume eq: "normalizeBranch ?n = ?n"
    have "suffix (TrimPrefix (TrimLeftSpace ?n) ''origin/'') (TrimLeftSpace ?n)"
      by (simp add: TrimPrefix_def suffix_drop)
    then have "length ?n \<le> length (TrimLeftSpace ?n)"
      using eq again suffix_length_le by fastforce
    moreover have "suffix (TrimLeftSpace ?n) ?n"
      by (rule TrimLeftSpace_suffix)
    ultimately have fixed: "TrimLeftSpace ?n = ?n"
      using suffix_length_le [of "TrimLeftSpace ?n" ?n]
      by (metis le_antisym suffix_order.eq_iff suffix_length_suffix suffix_order.refl)
    then have "TrimPrefix ?n ''origin/'' = ?n"
      using eq again by simp
    then show "\<not> prefix ''origin/'' ?n \<and> leadingSpace ?n = None"
      using fixed TrimLeftSpace_fixed [of ?n] TrimPrefix_fixed [of "''origin/''" ?n] by simp
  next
    assume "\<not> prefix ''origin/'' ?n \<and> leadingSpace ?n = None"
    then show "normalizeBranch ?n = ?n"
      using again TrimLeftSpace_fixed [of ?n] by (simp add: TrimPrefix_def)
  qed
qed

theorem normalize_again_witness:
  "\<not> prefix ''origin/'' (normalizeBranch ''  origin/main '')
   \<and> leadingSpace (normalizeBranch ''  origin/main '') = None
   \<and> normalizeBranch (normalizeBranch ''  origin/main '') = normalizeBranch ''  origin/main ''"
proof -
  have a: "\<not> prefix ''origin/'' (normalizeBranch ''  origin/main '')"
    by code_simp
  have b: "leadingSpace (normalizeBranch ''  origin/main '') = None"
    by code_simp
  show ?thesis
    using a b normalize_again [of "''  origin/main ''"] by blast
qed


end
